theory Spec2Isabelle
  imports Main
begin

section \<open>Data: bytes, text, paths, the environment\<close>

text \<open>
  A Python \<open>bytes\<close> value is a list of 8-bit characters; a Python \<open>str\<close> is a list of
  Unicode code points. ASCII literals of the source are written as HOL string literals
  and turned into text by \<open>ascii\<close>.
\<close>

type_synonym bytes = "char list"
type_synonym str = "nat list"
type_synonym path = "str list"

definition ascii :: "string \<Rightarrow> str" where
  "ascii s = map of_char s"

definition MAX_FILE_SIZE_MB :: nat where
  "MAX_FILE_SIZE_MB = 384"

definition READ_IN_SIZE :: nat where
  "READ_IN_SIZE = 32"

text \<open>\<open>bytes.startswith\<close>, \<open>str.startswith\<close> and \<open>str.endswith\<close>.\<close>

definition startswith :: "'a list \<Rightarrow> 'a list \<Rightarrow> bool" where
  "startswith xs p = (take (length p) xs = p)"

definition endswith :: "'a list \<Rightarrow> 'a list \<Rightarrow> bool" where
  "endswith xs s = (length s \<le> length xs \<and> drop (length xs - length s) xs = s)"

text \<open>
  A binary file object: \<open>f.seek(pos)\<close> followed by \<open>f.read(n)\<close> returns the at most
  \<open>n\<close> bytes available from \<open>pos\<close>; it returns fewer (down to none) at the end of the file
  and never raises.
\<close>

definition f_read :: "bytes \<Rightarrow> nat \<Rightarrow> nat \<Rightarrow> bytes" where
  "f_read bs pos n = take n (drop pos bs)"

text \<open>
  \<open>struct.unpack(">H", data)[0]\<close> and \<open>struct.unpack(">I", data)[0]\<close>: a big-endian
  unsigned integer of exactly \<open>n\<close> bytes; a buffer of another length raises
  \<open>struct.error\<close> (here \<open>None\<close>).
\<close>

definition struct_unpack :: "nat \<Rightarrow> bytes \<Rightarrow> nat option" where
  "struct_unpack n data =
     (if length data \<noteq> n then None
      else Some (foldl (\<lambda>acc b. acc * 256 + of_char b) 0 data))"

datatype error =
    IndexError | StructError | UnknownFormat
  | FileNotFoundError | KeyError | UnicodeDecodeError

record record_header =
  body_length :: nat
  body_offset :: nat

section \<open>The header of a cache record (extract_file, lines 254 to 265)\<close>

text \<open>
  \<open>bs\<close> is the content of the open file and \<open>header\<close> the window read from its start.
  \<open>header[0x15]\<close> raises IndexError on a shorter window; the length field is read from
  the file itself after \<open>f.seek(0x16)\<close>.
\<close>

definition parse_header :: "bytes \<Rightarrow> bytes \<Rightarrow> error + record_header" where
  "parse_header bs header =
     (if length header \<le> 0x15 then Inl IndexError
      else let indicator = (of_char (header ! 0x15) :: nat) in
        if indicator = 0xC5 then
          (case struct_unpack 2 (f_read bs 0x16 2) of
             None \<Rightarrow> Inl StructError
           | Some n \<Rightarrow> Inr \<lparr>body_length = n, body_offset = 0x18\<rparr>)
        else if indicator = 0xC6 then
          (case struct_unpack 4 (f_read bs 0x16 4) of
             None \<Rightarrow> Inl StructError
           | Some n \<Rightarrow> Inr \<lparr>body_length = n, body_offset = 0x1A\<rparr>)
        else Inl UnknownFormat)"

section \<open>Python string operations used by the source\<close>

text \<open>
  \<open>bytes.decode("utf-8")\<close> in strict mode: the shortest-form UTF-8 sequences of the
  code points up to U+10FFFF without the surrogates; anything else raises
  UnicodeDecodeError (here \<open>None\<close>).
\<close>

definition cont :: "nat \<Rightarrow> bool" where
  "cont b = (0x80 \<le> b \<and> b \<le> 0xBF)"

fun utf8 :: "nat list \<Rightarrow> str option" where
  "utf8 [] = Some []"
| "utf8 (b0 # bs) =
     (if b0 < 0x80 then map_option ((#) b0) (utf8 bs)
      else if 0xC2 \<le> b0 \<and> b0 \<le> 0xDF then
        (case bs of
           b1 # r \<Rightarrow>
             if cont b1
             then map_option ((#) ((b0 - 0xC0) * 64 + (b1 - 0x80))) (utf8 r)
             else None
         | _ \<Rightarrow> None)
      else if 0xE0 \<le> b0 \<and> b0 \<le> 0xEF then
        (case bs of
           b1 # b2 # r \<Rightarrow>
             if (if b0 = 0xE0 then 0xA0 else 0x80) \<le> b1
                \<and> b1 \<le> (if b0 = 0xED then 0x9F else 0xBF) \<and> cont b2
             then map_option
                    ((#) (((b0 - 0xE0) * 64 + (b1 - 0x80)) * 64 + (b2 - 0x80))) (utf8 r)
             else None
         | _ \<Rightarrow> None)
      else if 0xF0 \<le> b0 \<and> b0 \<le> 0xF4 then
        (case bs of
           b1 # b2 # b3 # r \<Rightarrow>
             if (if b0 = 0xF0 then 0x90 else 0x80) \<le> b1
                \<and> b1 \<le> (if b0 = 0xF4 then 0x8F else 0xBF) \<and> cont b2 \<and> cont b3
             then map_option
                    ((#) ((((b0 - 0xF0) * 64 + (b1 - 0x80)) * 64 + (b2 - 0x80)) * 64
                          + (b3 - 0x80))) (utf8 r)
             else None
         | _ \<Rightarrow> None)
      else None)"

definition decode_utf8 :: "bytes \<Rightarrow> str option" where
  "decode_utf8 b = utf8 (map of_char b)"

text \<open>\<open>str.isspace\<close> of one character, and \<open>str.strip()\<close>.\<close>

definition isspace :: "nat \<Rightarrow> bool" where
  "isspace c =
     ((0x09 \<le> c \<and> c \<le> 0x0D) \<or> (0x1C \<le> c \<and> c \<le> 0x20) \<or> c = 0x85 \<or> c = 0xA0
      \<or> c = 0x1680 \<or> (0x2000 \<le> c \<and> c \<le> 0x200A) \<or> c = 0x2028 \<or> c = 0x2029
      \<or> c = 0x202F \<or> c = 0x205F \<or> c = 0x3000)"

definition strip :: "str \<Rightarrow> str" where
  "strip s = rev (dropWhile isspace (rev (dropWhile isspace s)))"

text \<open>
  \<open>str.splitlines()\<close>: the lines without their line breaks; \<open>\r\n\<close> is one break, and
  a break at the very end opens no further line.
\<close>

definition linebreak :: "nat \<Rightarrow> bool" where
  "linebreak c =
     (c = 0x0A \<or> c = 0x0B \<or> c = 0x0C \<or> c = 0x0D \<or> c = 0x1C \<or> c = 0x1D \<or> c = 0x1E
      \<or> c = 0x85 \<or> c = 0x2028 \<or> c = 0x2029)"

fun splitlines_from :: "str \<Rightarrow> str \<Rightarrow> str list" where
  "splitlines_from cur [] = (if cur = [] then [] else [rev cur])"
| "splitlines_from cur [c] =
     (if linebreak c then [rev cur] else [rev (c # cur)])"
| "splitlines_from cur (c # d # s) =
     (if c = 0x0D \<and> d = 0x0A then rev cur # splitlines_from [] s
      else if linebreak c then rev cur # splitlines_from [] (d # s)
      else splitlines_from (c # cur) (d # s))"

definition splitlines :: "str \<Rightarrow> str list" where
  "splitlines s = splitlines_from [] s"

text \<open>
  \<open>s.split(sep)\<close> for a non-empty separator: the fields between the occurrences of
  \<open>sep\<close>, found from the left without overlap. (An empty separator raises ValueError;
  the source only splits at the literals \<open>"/"\<close>, \<open>":"\<close> and \<open>"::"\<close>.)
\<close>

function split_from :: "'a list \<Rightarrow> 'a list \<Rightarrow> 'a list \<Rightarrow> 'a list list" where
  "split_from sep cur s =
     (if s = [] \<or> sep = [] then [rev cur @ s]
      else if startswith s sep then rev cur # split_from sep [] (drop (length sep) s)
      else split_from sep (hd s # cur) (tl s))"
  by pat_completeness auto
termination
  by (relation "measure (\<lambda>(sep, cur, s). length s)") auto

declare split_from.simps [simp del]

definition split :: "'a list \<Rightarrow> 'a list \<Rightarrow> 'a list list" where
  "split s sep = split_from sep [] s"

text \<open>\<open>s.split(sep, 1)\<close>: split at the first occurrence of \<open>sep\<close> only.\<close>

function split1_from :: "'a list \<Rightarrow> 'a list \<Rightarrow> 'a list \<Rightarrow> 'a list list" where
  "split1_from sep cur s =
     (if s = [] \<or> sep = [] then [rev cur @ s]
      else if startswith s sep then [rev cur, drop (length sep) s]
      else split1_from sep (hd s # cur) (tl s))"
  by pat_completeness auto
termination
  by (relation "measure (\<lambda>(sep, cur, s). length s)") auto

declare split1_from.simps [simp del]

definition split1 :: "'a list \<Rightarrow> 'a list \<Rightarrow> 'a list list" where
  "split1 s sep = split1_from sep [] s"

text \<open>\<open>s.replace(old, new)\<close> for a non-empty \<open>old\<close>: every occurrence, from the left.\<close>

function replace :: "'a list \<Rightarrow> 'a list \<Rightarrow> 'a list \<Rightarrow> 'a list" where
  "replace s old new =
     (if s = [] \<or> old = [] then s
      else if startswith s old then new @ replace (drop (length old) s) old new
      else hd s # replace (tl s) old new)"
  by pat_completeness auto
termination
  by (relation "measure (\<lambda>(s, old, new). length s)") auto

declare replace.simps [simp del]

text \<open>\<open>xs[i]\<close> on a Python list, for \<open>i = 1\<close> and \<open>i = -1\<close>; IndexError is \<open>None\<close>.\<close>

definition index1 :: "'a list \<Rightarrow> 'a option" where
  "index1 xs = (if length xs \<le> 1 then None else Some (xs ! 1))"

definition index_last :: "'a list \<Rightarrow> 'a option" where
  "index_last xs = (if xs = [] then None else Some (last xs))"

text \<open>Truth value of an \<open>Optional[str]\<close>: neither \<open>None\<close> nor the empty string.\<close>

definition truthy :: "str option \<Rightarrow> bool" where
  "truthy v = (case v of None \<Rightarrow> False | Some s \<Rightarrow> s \<noteq> [])"

text \<open>An f-string field \<open>{v}\<close> of an \<open>Optional[str]\<close>.\<close>

definition fmt :: "str option \<Rightarrow> str" where
  "fmt v = (case v of None \<Rightarrow> ascii ''None'' | Some s \<Rightarrow> s)"

section \<open>detect_file_type\<close>

text \<open>
  One pass of the loop over the lines (lines 297 to 303) on the variables
  \<open>(name, version, python_version)\<close>; \<open>None\<close> is an IndexError of a subscript.
\<close>

type_synonym fields = "str option \<times> str option \<times> str option"

definition metadata_step :: "str \<Rightarrow> fields \<Rightarrow> fields option" where
  "metadata_step line st =
     (case st of (name, version, python_version) \<Rightarrow>
        if startswith line (ascii ''Name:'') then
          map_option (\<lambda>v. (Some (strip v), version, python_version))
            (index1 (split1 line (ascii '':'')))
        else if startswith line (ascii ''Version:'') then
          map_option (\<lambda>v. (name, Some (strip v), python_version))
            (index1 (split1 line (ascii '':'')))
        else if startswith line (ascii ''Classifier: Programming Language :: Python ::'') then
          map_option (\<lambda>v. (name, version, Some (strip v)))
            (index_last (split line (ascii ''::'')))
        else Some st)"

fun metadata_loop :: "str list \<Rightarrow> fields \<Rightarrow> fields option" where
  "metadata_loop [] st = Some st"
| "metadata_loop (line # lines) st =
     (case metadata_step line st of
        None \<Rightarrow> None
      | Some st' \<Rightarrow> metadata_loop lines st')"

text \<open>
  Lines 293 to 308: the name returned there; \<open>None\<close> when an exception is raised
  (and caught at line 309) or when neither \<open>return\<close> is reached.
\<close>

definition parse_metadata :: "bytes \<Rightarrow> str option" where
  "parse_metadata body =
     (case decode_utf8 body of
        None \<Rightarrow> None
      | Some text \<Rightarrow>
          (case metadata_loop (splitlines text) (None, None, None) of
             None \<Rightarrow> None
           | Some (name, version, python_version) \<Rightarrow>
               if truthy name \<and> truthy version \<and> truthy python_version then
                 Some (fmt name @ ascii ''-'' @ fmt version @ ascii ''-py''
                       @ fmt python_version @ ascii ''.metadata.txt'')
               else if truthy name \<and> truthy version then
                 Some (fmt name @ ascii ''-'' @ fmt version
                       @ ascii ''-py3-none-any.metadata.txt'')
               else None))"

definition detect_file_type :: "bytes \<Rightarrow> str \<Rightarrow> str" where
  "detect_file_type body default_name =
     (if startswith body (''PK'' @ [CHR 0x03, CHR 0x04]) then
        default_name @ ascii ''.whl''
      else if startswith body [CHR 0x1F, CHR 0x8B, CHR 0x08, CHR 0x00] then
        default_name @ ascii ''.gz''
      else if startswith body [CHR 0x1F, CHR 0x8B, CHR 0x08, CHR 0x08] then
        default_name @ ascii ''.tgz''
      else if startswith body ''Metadata-Version'' then
        (case parse_metadata body of
           Some final_name \<Rightarrow> final_name
         | None \<Rightarrow> default_name @ ascii ''.dat'')
      else default_name @ ascii ''.dat'')"

section \<open>is_cachecontrol_v4, extract_file and the file list\<close>

text \<open>
  What the program reads from outside: \<open>files\<close> gives the content of each path that
  can be opened for reading (\<open>None\<close>: \<open>stat\<close> or \<open>open\<close> raises), \<open>proceed\<close> the
  answer to the large-file dialog, \<open>os_sep\<close> the one-character \<open>os.sep\<close>, and
  \<open>writable\<close> whether the output file of that name can be created and written.
  A path is the list of its components; \<open>Path.name\<close> is the last one.
\<close>

record env =
  files :: "path \<Rightarrow> bytes option"
  proceed :: bool
  os_sep :: nat
  writable :: "str \<Rightarrow> bool"

definition path_name :: "path \<Rightarrow> str" where
  "path_name p = (if p = [] then [] else last p)"

definition is_cachecontrol_v4 :: "env \<Rightarrow> path \<Rightarrow> bool" where
  "is_cachecontrol_v4 e file_path =
     (case files e file_path of
        None \<Rightarrow> False
      | Some bs \<Rightarrow> f_read bs 0 5 = ''cc=4,'')"

text \<open>
  The result is the name under the output folder together with the bytes written
  there; \<open>None\<close> is the source's \<open>return None\<close>, on every path that reaches one.
\<close>

definition extract_file :: "env \<Rightarrow> path \<Rightarrow> (str \<times> bytes) option" where
  "extract_file e file =
     (case files e file of
        None \<Rightarrow> None
      | Some bs \<Rightarrow>
          if length bs > MAX_FILE_SIZE_MB * 1024 * 1024 \<and> \<not> proceed e then None
          else
            let header = f_read bs 0 READ_IN_SIZE in
            if \<not> startswith header ''cc=4'' then None
            else
              (case parse_header bs header of
                 Inl err \<Rightarrow> None
               | Inr h \<Rightarrow>
                   let body = f_read bs (body_offset h) (body_length h);
                       default_name = replace (path_name file) [os_sep e] (ascii ''-'');
                       final_name = detect_file_type body default_name
                   in if writable e final_name then Some (final_name, body) else None))"

text \<open>
  \<open>load_files\<close> over the paths that \<open>rglob\<close> yields, and the calls of \<open>extract_file\<close>
  that \<open>extract_all\<close> makes: one per entry of the file list, in order, until the abort
  flag is seen (after \<open>k\<close> files).
\<close>

definition load_files :: "env \<Rightarrow> path list \<Rightarrow> path list" where
  "load_files e found = filter (is_cachecontrol_v4 e) found"

definition extract_all :: "env \<Rightarrow> nat \<Rightarrow> path list \<Rightarrow> (path \<times> (str \<times> bytes) option) list" where
  "extract_all e k file_list = map (\<lambda>file. (file, extract_file e file)) (take k file_list)"

section \<open>reconstruct_whl_filename\<close>

text \<open>
  An opened zip archive: its members in directory order, each with its name and its
  decompressed content. \<open>archive.open(name)\<close> finds the last member of that name and
  raises KeyError (\<open>None\<close>) when there is none; iterating the opened member yields its
  lines, each with its terminating \<open>\n\<close>.
\<close>

type_synonym archive = "(str \<times> bytes) list"

definition namelist :: "archive \<Rightarrow> str list" where
  "namelist a = map fst a"

definition archive_open :: "archive \<Rightarrow> str \<Rightarrow> bytes option" where
  "archive_open a n = map_of (rev a) n"

fun lines_from :: "bytes \<Rightarrow> bytes \<Rightarrow> bytes list" where
  "lines_from cur [] = (if cur = [] then [] else [rev cur])"
| "lines_from cur (c # s) =
     (if c = CHR 0x0A then rev (c # cur) # lines_from [] s
      else lines_from (c # cur) s)"

definition readlines :: "bytes \<Rightarrow> bytes list" where
  "readlines content = lines_from [] content"

definition dist_info_folders :: "archive \<Rightarrow> str set" where
  "dist_info_folders a =
     set (map (\<lambda>name. hd (split name (ascii ''/'')))
            (filter (\<lambda>name. endswith name (ascii ''.dist-info/WHEEL'')) (namelist a)))"

fun wheel_loop :: "str \<Rightarrow> bytes list \<Rightarrow> error + str option" where
  "wheel_loop variable_name [] = Inr None"
| "wheel_loop variable_name (line_bytes # rest) =
     (case decode_utf8 line_bytes of
        None \<Rightarrow> Inl UnicodeDecodeError
      | Some t \<Rightarrow>
          let line = strip t in
          if startswith line (ascii ''Tag:'') then
            let tag_name = strip (drop (length ''Tag:'') line)
            in Inr (Some (variable_name @ ascii ''-'' @ tag_name @ ascii ''.whl''))
          else wheel_loop variable_name rest)"

text \<open>Lines 39 to 48, for the folder that \<open>dist_info_folders.pop()\<close> returned.\<close>

definition reconstruct_from :: "archive \<Rightarrow> str \<Rightarrow> error + str option" where
  "reconstruct_from a dist_info_folder =
     (let variable_name = replace dist_info_folder (ascii ''.dist-info'') [];
          wheel_path = dist_info_folder @ ascii ''/WHEEL''
      in case archive_open a wheel_path of
           None \<Rightarrow> Inl KeyError
         | Some content \<Rightarrow> wheel_loop variable_name (readlines content))"

text \<open>
  \<open>set.pop()\<close> returns an arbitrary element, so the function has one possible outcome
  for each folder in the set: \<open>Inl\<close> an exception, \<open>Inr None\<close> the final
  \<open>return None\<close>, \<open>Inr (Some n)\<close> a reconstructed name.
\<close>

definition reconstruct_whl_filename :: "archive \<Rightarrow> (error + str option) set" where
  "reconstruct_whl_filename a =
     (if dist_info_folders a = {} then {Inl FileNotFoundError}
      else reconstruct_from a ` dist_info_folders a)"

section \<open>Notions used to state the properties\<close>

text \<open>The last of the lines that start with \<open>p\<close>, if there is one.\<close>

definition last_line :: "str \<Rightarrow> str list \<Rightarrow> str option" where
  "last_line p ls = find (\<lambda>l. startswith l p) (rev ls)"

text \<open>
  A line of the WHEEL file that is passed over: it decodes as UTF-8 and its trimmed
  text does not start with \<open>Tag:\<close>.
\<close>

definition not_tag_line :: "bytes \<Rightarrow> bool" where
  "not_tag_line b =
     (case decode_utf8 b of
        None \<Rightarrow> False
      | Some t \<Rightarrow> \<not> startswith (strip t) (ascii ''Tag:''))"

text \<open>
  The first path segment of a member name, and the names that lie below a directory
  above their \<open>.dist-info\<close> directory: without the first segment and its slash they
  still end in \<open>.dist-info/WHEEL\<close>.
\<close>

definition first_segment :: "str \<Rightarrow> str" where
  "first_segment n = takeWhile (\<lambda>c. c \<noteq> 0x2F) n"

definition nested :: "str \<Rightarrow> bool" where
  "nested n =
     (length (first_segment n) < length n
      \<and> endswith (drop (length (first_segment n) + 1) n) (ascii ''.dist-info/WHEEL''))"

section \<open>Example inputs\<close>

text \<open>
  An environment in which every path holds the record \<open>bs\<close>, the large-file dialog is
  answered with no, \<open>os.sep\<close> is \<open>/\<close> and every output file can be written.
\<close>

definition env0 :: "bytes \<Rightarrow> env" where
  "env0 bs = \<lparr>files = (\<lambda>p. Some bs), proceed = False, os_sep = 0x2F, writable = (\<lambda>n. True)\<rparr>"

definition rec_c5 :: bytes where
  "rec_c5 = ''cc=4,'' @ ''0123456789abcdef'' @ [CHR 0xC5, CHR 0x00, CHR 0x05]
            @ ''PK'' @ [CHR 0x03, CHR 0x04] @ ''abcd''"

definition rec_c6 :: bytes where
  "rec_c6 = ''cc=4,'' @ ''0123456789abcdef'' @ [CHR 0xC6, CHR 0x00, CHR 0x00, CHR 0x01, CHR 0x02]
            @ ''abcdef''"

definition rec_other :: bytes where
  "rec_other = ''cc=4,'' @ ''0123456789abcdef'' @ [CHR 0xC4, CHR 0x00, CHR 0x05]
            @ ''PK'' @ [CHR 0x03, CHR 0x04] @ ''abcd''"

definition rec_28 :: bytes where
  "rec_28 = ''cc=4,'' @ ''0123456789abcdef'' @ [CHR 0xC5, CHR 0x00, CHR 0x04]
            @ ''PK'' @ [CHR 0x03, CHR 0x04]"

definition rec_21 :: bytes where
  "rec_21 = ''cc=4,'' @ ''0123456789abcdef''"

definition rec_23 :: bytes where
  "rec_23 = ''cc=4,'' @ ''0123456789abcdef'' @ [CHR 0xC5, CHR 0x00]"

definition rec_25 :: bytes where
  "rec_25 = ''cc=4,'' @ ''0123456789abcdef'' @ [CHR 0xC6, CHR 0x00, CHR 0x00, CHR 0x00]"

definition rec_26 :: bytes where
  "rec_26 = ''cc=4,'' @ ''0123456789abcdef'' @ [CHR 0xC6, CHR 0x00, CHR 0x00, CHR 0x00, CHR 0x00]"

definition rec_truncated :: bytes where
  "rec_truncated = ''cc=4,'' @ ''0123456789abcdef'' @ [CHR 0xC5, CHR 0x00, CHR 0x05]
            @ ''PK'' @ [CHR 0x03, CHR 0x04]"

definition md_tagged :: bytes where
  "md_tagged = ''Metadata-Version: 2.1'' @ [CHR 0x0A] @ ''Name: foo'' @ [CHR 0x0A]
     @ ''Version: 1.0'' @ [CHR 0x0A]
     @ ''Classifier: Programming Language :: Python :: 3.9'' @ [CHR 0x0A]"

definition md_untagged :: bytes where
  "md_untagged = ''Metadata-Version: 2.1'' @ [CHR 0x0A] @ ''Name: foo'' @ [CHR 0x0A]
     @ ''Version: 1.0'' @ [CHR 0x0A]"

definition md_empty_name :: bytes where
  "md_empty_name = ''Metadata-Version: 2.1'' @ [CHR 0x0A] @ ''Name:'' @ [CHR 0x0A]
     @ ''Version: 1.0'' @ [CHR 0x0A]"

definition md_not_utf8 :: bytes where
  "md_not_utf8 = ''Metadata-Version: 2.1'' @ [CHR 0x0A] @ ''Name: foo'' @ [CHR 0xFF, CHR 0x0A]
     @ ''Version: 1.0'' @ [CHR 0x0A]"

definition body_wheel :: bytes where
  "body_wheel = [CHR 0x50, CHR 0x4B, CHR 0x03, CHR 0x04] @ ''Metadata-Version''"

definition body_gz :: bytes where
  "body_gz = [CHR 0x1F, CHR 0x8B, CHR 0x08, CHR 0x00, CHR 0x00]"

definition body_tgz :: bytes where
  "body_tgz = [CHR 0x1F, CHR 0x8B, CHR 0x08, CHR 0x08, CHR 0x00]"

definition body_other :: bytes where
  "body_other = ''  Metadata-Version: 2.1''"

definition rec_semicolon :: bytes where
  "rec_semicolon = ''cc=4;'' @ ''0123456789abcdef'' @ [CHR 0xC5, CHR 0x00, CHR 0x04]
            @ ''PK'' @ [CHR 0x03, CHR 0x04]"

definition env_dir :: env where
  "env_dir = \<lparr>files = map_of [([ascii ''a'', ascii ''0f3c''], rec_28),
                                  ([ascii ''b'', ascii ''0f3c''], rec_semicolon)],
              proceed = False, os_sep = 0x2F, writable = (\<lambda>n. True)\<rparr>"

definition found_paths :: "path list" where
  "found_paths =
     [ [ascii ''a'', ascii ''0f3c''], [ascii ''b'', ascii ''0f3c''], [ascii ''c'', ascii ''0f3c''] ]"

definition archive_pkg :: archive where
  "archive_pkg =
     [(ascii ''pkg-1.0.dist-info/METADATA'', ''Metadata-Version: 2.1'' @ [CHR 0x0A]),
      (ascii ''pkg-1.0.dist-info/WHEEL'',
       ''Wheel-Version: 1.0'' @ [CHR 0x0A] @ ''Tag: py3-none-any'' @ [CHR 0x0A])]"

definition archive_no_tag :: archive where
  "archive_no_tag =
     [(ascii ''pkg-1.0.dist-info/WHEEL'', ''Wheel-Version: 1.0'' @ [CHR 0x0A])]"

definition archive_no_wheel :: archive where
  "archive_no_wheel = [(ascii ''pkg/__init__.py'', [])]"

definition archive_indented :: archive where
  "archive_indented =
     [(ascii ''pkg-1.0.dist-info/WHEEL'',
       '' Tag: a'' @ [CHR 0x0A] @ ''Tag: b'' @ [CHR 0x0A])]"

definition archive_twice :: archive where
  "archive_twice =
     [(ascii ''a.dist-info.dist-info/WHEEL'', ''Tag: py3-none-any'' @ [CHR 0x0A])]"

definition archive_nested :: archive where
  "archive_nested =
     [(ascii ''sub/pkg-1.0.dist-info/WHEEL'',
       ''Wheel-Version: 1.0'' @ [CHR 0x0A] @ ''Tag: py3-none-any'' @ [CHR 0x0A])]"

definition archive_nested_wheel :: archive where
  "archive_nested_wheel =
     [(ascii ''sub/pkg-1.0.dist-info/WHEEL'',
       ''Wheel-Version: 1.0'' @ [CHR 0x0A] @ ''Tag: py3-none-any'' @ [CHR 0x0A]),
      (ascii ''sub/WHEEL'', ''Tag: t'' @ [CHR 0x0A])]"

section \<open>Reading the file\<close>

text \<open>The definitions that evaluate the model on a concrete input.\<close>

lemmas eval_defs = decode_utf8_def cont_def ascii_def startswith_def endswith_def
  detect_file_type_def parse_metadata_def metadata_step_def splitlines_def linebreak_def
  index1_def index_last_def split_def split1_def split_from.simps split1_from.simps
  replace.simps strip_def isspace_def truthy_def fmt_def f_read_def READ_IN_SIZE_def
  MAX_FILE_SIZE_MB_def extract_file_def parse_header_def struct_unpack_def path_name_def
  env0_def

lemmas eval_archive = readlines_def namelist_def archive_open_def dist_info_folders_def
  reconstruct_from_def reconstruct_whl_filename_def not_tag_line_def nested_def
  first_segment_def

lemma f_read_2:
  assumes "pos + 2 \<le> length bs"
  shows "f_read bs pos 2 = [bs ! pos, bs ! (pos + 1)]"
proof -
  have "drop pos bs = bs ! pos # bs ! (pos + 1) # drop (pos + 2) bs"
    using assms by (simp add: Cons_nth_drop_Suc)
  then show ?thesis by (simp add: f_read_def)
qed

lemma f_read_4:
  assumes "pos + 4 \<le> length bs"
  shows "f_read bs pos 4 = [bs ! pos, bs ! (pos + 1), bs ! (pos + 2), bs ! (pos + 3)]"
proof -
  have "drop pos bs =
      bs ! pos # bs ! (pos + 1) # bs ! (pos + 2) # bs ! (pos + 3) # drop (pos + 4) bs"
    using assms by (simp add: Cons_nth_drop_Suc eval_nat_numeral)
  then show ?thesis by (simp add: f_read_def)
qed

lemma struct_unpack_2:
  "struct_unpack 2 [a, b] = Some (of_char a * 256 + of_char b)"
  by (simp add: struct_unpack_def)

lemma struct_unpack_4:
  "struct_unpack 4 [a, b, c, d] =
     Some (of_char a * 2 ^ 24 + of_char b * 2 ^ 16 + of_char c * 2 ^ 8 + of_char d)"
  by (simp add: struct_unpack_def)

lemma length_f_read: "length (f_read bs pos n) = min n (length bs - pos)"
  by (simp add: f_read_def)

lemma header_window:
  assumes "header = f_read bs 0 READ_IN_SIZE" and "length header = 32"
  shows "32 \<le> length bs" and "\<And>i. i < 32 \<Longrightarrow> header ! i = bs ! i"
  using assms by (auto simp: f_read_def READ_IN_SIZE_def)

lemma header_length:
  "length (f_read bs 0 READ_IN_SIZE) = min 32 (length bs)"
  by (simp add: f_read_def READ_IN_SIZE_def)

lemma extract_file_parse_error:
  assumes "files e file = Some bs" and "parse_header bs (f_read bs 0 READ_IN_SIZE) = Inl err"
  shows "extract_file e file = None"
  using assms by (simp add: extract_file_def Let_def)

section \<open>The two header layouts\<close>

text \<open>
  C1. When the window read from the start of the file has all its 32 bytes: with the
  byte \<open>0xC5\<close> at offset \<open>0x15\<close> the header gives the big-endian 16-bit number at
  offsets \<open>0x16\<close> and \<open>0x17\<close> as body length and \<open>0x18\<close> as body offset; with \<open>0xC6\<close>
  it gives the big-endian 32-bit number at offsets \<open>0x16\<close> to \<open>0x19\<close> and the offset
  \<open>0x1A\<close>; with any other byte there, parsing fails in the "Unknown format" branch
  and \<open>extract_file\<close> returns \<open>None\<close>, so that no body is read or written.
\<close>

theorem parse_header_layouts:
  assumes "header = f_read bs 0 READ_IN_SIZE" and "length header = 32"
    and "files e file = Some bs"
  shows
    "(of_char (header ! 0x15) = (0xC5 :: nat) \<longrightarrow>
        parse_header bs header =
          Inr \<lparr>body_length = of_char (header ! 0x16) * 256 + of_char (header ! 0x17),
               body_offset = 0x18\<rparr>)
     \<and> (of_char (header ! 0x15) = (0xC6 :: nat) \<longrightarrow>
        parse_header bs header =
          Inr \<lparr>body_length = of_char (header ! 0x16) * 2 ^ 24 + of_char (header ! 0x17) * 2 ^ 16
                   + of_char (header ! 0x18) * 2 ^ 8 + of_char (header ! 0x19),
               body_offset = 0x1A\<rparr>)
     \<and> (of_char (header ! 0x15) \<noteq> (0xC5 :: nat) \<and> of_char (header ! 0x15) \<noteq> (0xC6 :: nat) \<longrightarrow>
        parse_header bs header = Inl UnknownFormat \<and> extract_file e file = None)"
proof -
  have len: "32 \<le> length bs" and nth: "\<And>i. i < 32 \<Longrightarrow> header ! i = bs ! i"
    using header_window [OF assms(1,2)] by auto
  have r2: "f_read bs 0x16 2 = [header ! 0x16, header ! 0x17]"
    using f_read_2 [of "0x16" bs] len by (simp add: nth)
  have r4: "f_read bs 0x16 4 = [header ! 0x16, header ! 0x17, header ! 0x18, header ! 0x19]"
    using f_read_4 [of "0x16" bs] len by (simp add: nth)
  have c5: "of_char (header ! 0x15) = (0xC5 :: nat) \<Longrightarrow>
      parse_header bs header =
        Inr \<lparr>body_length = of_char (header ! 0x16) * 256 + of_char (header ! 0x17),
             body_offset = 0x18\<rparr>"
    using assms(2) by (simp add: parse_header_def r2 struct_unpack_2)
  have c6: "of_char (header ! 0x15) = (0xC6 :: nat) \<Longrightarrow>
      parse_header bs header =
        Inr \<lparr>body_length = of_char (header ! 0x16) * 2 ^ 24 + of_char (header ! 0x17) * 2 ^ 16
                 + of_char (header ! 0x18) * 2 ^ 8 + of_char (header ! 0x19),
             body_offset = 0x1A\<rparr>"
    using assms(2) by (simp add: parse_header_def r4 struct_unpack_4)
  have other: "of_char (header ! 0x15) \<noteq> (0xC5 :: nat) \<Longrightarrow>
      of_char (header ! 0x15) \<noteq> (0xC6 :: nat) \<Longrightarrow> parse_header bs header = Inl UnknownFormat"
    using assms(2) by (simp add: parse_header_def)
  have none: "parse_header bs header = Inl UnknownFormat \<Longrightarrow> extract_file e file = None"
    using assms(1,3) by (simp add: extract_file_def Let_def)
  show ?thesis using c5 c6 other none by blast
qed

theorem parse_header_layouts_witness:
  "parse_header rec_c5 (f_read rec_c5 0 READ_IN_SIZE) = Inr \<lparr>body_length = 5, body_offset = 0x18\<rparr>
   \<and> parse_header rec_c6 (f_read rec_c6 0 READ_IN_SIZE) = Inr \<lparr>body_length = 258, body_offset = 0x1A\<rparr>
   \<and> parse_header rec_other (f_read rec_other 0 READ_IN_SIZE) = Inl UnknownFormat
   \<and> extract_file (env0 rec_other) [ascii ''record''] = None"
  using parse_header_layouts [of "f_read rec_c5 0 READ_IN_SIZE" rec_c5 "env0 rec_c5" "[ascii ''record'']"]
    parse_header_layouts [of "f_read rec_c6 0 READ_IN_SIZE" rec_c6 "env0 rec_c6" "[ascii ''record'']"]
    parse_header_layouts [of "f_read rec_other 0 READ_IN_SIZE" rec_other "env0 rec_other" "[ascii ''record'']"]
  by (simp add: f_read_def READ_IN_SIZE_def rec_c5_def rec_c6_def rec_other_def env0_def)

section \<open>Sources shorter than the read-in window\<close>

text \<open>
  C7 (as the code has it). No check is made on the length of the 32-byte window.
  Parsing fails for a source of fewer than 22 bytes (the subscript \<open>header[0x15]\<close>
  raises IndexError), for an indicator \<open>0xC5\<close> with fewer than 24 bytes and for an
  indicator \<open>0xC6\<close> with fewer than 26 bytes (the length field is incomplete and
  \<open>struct.unpack\<close> raises); in each of these cases \<open>extract_file\<close> returns \<open>None\<close>.
  A source that holds the indicator and the whole length field is parsed like a full
  one, also when it has fewer than 32 bytes.
\<close>

theorem parse_header_short_source:
  assumes "header = f_read bs 0 READ_IN_SIZE" and "files e file = Some bs"
  shows
    "(length bs < 22 \<longrightarrow> parse_header bs header = Inl IndexError)
     \<and> (22 \<le> length bs \<and> length bs < 24 \<and> of_char (header ! 0x15) = (0xC5 :: nat) \<longrightarrow>
          parse_header bs header = Inl StructError)
     \<and> (22 \<le> length bs \<and> length bs < 26 \<and> of_char (header ! 0x15) = (0xC6 :: nat) \<longrightarrow>
          parse_header bs header = Inl StructError)
     \<and> (24 \<le> length bs \<and> of_char (header ! 0x15) = (0xC5 :: nat) \<longrightarrow>
          parse_header bs header =
            Inr \<lparr>body_length = of_char (bs ! 0x16) * 256 + of_char (bs ! 0x17),
                 body_offset = 0x18\<rparr>)
     \<and> (26 \<le> length bs \<and> of_char (header ! 0x15) = (0xC6 :: nat) \<longrightarrow>
          parse_header bs header =
            Inr \<lparr>body_length = of_char (bs ! 0x16) * 2 ^ 24 + of_char (bs ! 0x17) * 2 ^ 16
                     + of_char (bs ! 0x18) * 2 ^ 8 + of_char (bs ! 0x19),
                 body_offset = 0x1A\<rparr>)
     \<and> (\<forall>err. parse_header bs header = Inl err \<longrightarrow> extract_file e file = None)"
proof -
  have hl: "length header = min 32 (length bs)"
    using assms(1) by (simp add: header_length)
  have a: "length bs < 22 \<Longrightarrow> parse_header bs header = Inl IndexError"
    using hl by (simp add: parse_header_def)
  have b: "22 \<le> length bs \<Longrightarrow> length bs < 24 \<Longrightarrow> of_char (header ! 0x15) = (0xC5 :: nat) \<Longrightarrow>
      parse_header bs header = Inl StructError"
    using hl by (simp add: parse_header_def struct_unpack_def length_f_read)
  have c: "22 \<le> length bs \<Longrightarrow> length bs < 26 \<Longrightarrow> of_char (header ! 0x15) = (0xC6 :: nat) \<Longrightarrow>
      parse_header bs header = Inl StructError"
    using hl by (simp add: parse_header_def struct_unpack_def length_f_read)
  have d: "24 \<le> length bs \<Longrightarrow> of_char (header ! 0x15) = (0xC5 :: nat) \<Longrightarrow>
      parse_header bs header =
        Inr \<lparr>body_length = of_char (bs ! 0x16) * 256 + of_char (bs ! 0x17), body_offset = 0x18\<rparr>"
    using hl f_read_2 [of "0x16" bs] by (simp add: parse_header_def struct_unpack_2)
  have e: "26 \<le> length bs \<Longrightarrow> of_char (header ! 0x15) = (0xC6 :: nat) \<Longrightarrow>
      parse_header bs header =
        Inr \<lparr>body_length = of_char (bs ! 0x16) * 2 ^ 24 + of_char (bs ! 0x17) * 2 ^ 16
                 + of_char (bs ! 0x18) * 2 ^ 8 + of_char (bs ! 0x19),
             body_offset = 0x1A\<rparr>"
    using hl f_read_4 [of "0x16" bs] by (simp add: parse_header_def struct_unpack_4)
  have f: "\<forall>err. parse_header bs header = Inl err \<longrightarrow> extract_file e file = None"
    using extract_file_parse_error [OF assms(2)] assms(1) by blast
  show ?thesis using a b c d e f by blast
qed

theorem parse_header_short_source_witness:
  "parse_header rec_21 (f_read rec_21 0 READ_IN_SIZE) = Inl IndexError
   \<and> parse_header rec_23 (f_read rec_23 0 READ_IN_SIZE) = Inl StructError
   \<and> parse_header rec_25 (f_read rec_25 0 READ_IN_SIZE) = Inl StructError
   \<and> parse_header rec_28 (f_read rec_28 0 READ_IN_SIZE)
       = Inr \<lparr>body_length = 4, body_offset = 0x18\<rparr>
   \<and> parse_header rec_26 (f_read rec_26 0 READ_IN_SIZE)
       = Inr \<lparr>body_length = 0, body_offset = 0x1A\<rparr>
   \<and> extract_file (env0 rec_21) [ascii ''record''] = None"
  using
    parse_header_short_source [of "f_read rec_21 0 READ_IN_SIZE" rec_21 "env0 rec_21" "[ascii ''record'']"]
    parse_header_short_source [of "f_read rec_23 0 READ_IN_SIZE" rec_23 "env0 rec_23" "[ascii ''record'']"]
    parse_header_short_source [of "f_read rec_25 0 READ_IN_SIZE" rec_25 "env0 rec_25" "[ascii ''record'']"]
    parse_header_short_source [of "f_read rec_28 0 READ_IN_SIZE" rec_28 "env0 rec_28" "[ascii ''record'']"]
    parse_header_short_source [of "f_read rec_26 0 READ_IN_SIZE" rec_26 "env0 rec_26" "[ascii ''record'']"]
  by (simp add: f_read_def READ_IN_SIZE_def rec_21_def rec_23_def rec_25_def rec_26_def
      rec_28_def env0_def)

text \<open>
  A record of 28 bytes with the indicator \<open>0xC5\<close> and a body of 4 bytes: its header is
  parsed and its body extracted, although the window is not full.
\<close>

theorem short_header_counterexample:
  "length rec_28 < 32
   \<and> parse_header rec_28 (f_read rec_28 0 READ_IN_SIZE)
       = Inr \<lparr>body_length = 4, body_offset = 0x18\<rparr>
   \<and> extract_file (env0 rec_28) [ascii ''record'']
       = Some (ascii ''record.whl'', ''PK'' @ [CHR 0x03, CHR 0x04])"
  by (simp add: rec_28_def eval_defs)

section \<open>Sources shorter than the header announces\<close>

text \<open>
  C2 (as the code has it). \<open>f.read(body_length)\<close> returns what is left of the file.
  When the source holds fewer than \<open>body_offset + body_length\<close> bytes, extraction
  does not fail: the body is the bytes from \<open>body_offset\<close> to the end of the source,
  fewer than \<open>body_length\<close> when that is positive, and \<open>extract_file\<close> goes on to
  name and write this short body.
\<close>

theorem extract_file_short_body:
  assumes "files e file = Some bs"
    and "\<not> (length bs > MAX_FILE_SIZE_MB * 1024 * 1024 \<and> \<not> proceed e)"
    and "startswith (f_read bs 0 READ_IN_SIZE) ''cc=4''"
    and "parse_header bs (f_read bs 0 READ_IN_SIZE) = Inr h"
    and "length bs < body_offset h + body_length h"
    and "body = drop (body_offset h) bs"
    and "final_name = detect_file_type body (replace (path_name file) [os_sep e] (ascii ''-''))"
  shows "extract_file e file = (if writable e final_name then Some (final_name, body) else None)
     \<and> length body = length bs - body_offset h
     \<and> (0 < body_length h \<longrightarrow> length body < body_length h)"
proof -
  have "f_read bs (body_offset h) (body_length h) = body"
    using assms(5,6) by (simp add: f_read_def)
  then have "extract_file e file = (if writable e final_name then Some (final_name, body) else None)"
    using assms(1-4,7) by (auto simp: extract_file_def Let_def)
  moreover have "length body = length bs - body_offset h"
    using assms(6) by simp
  ultimately show ?thesis using assms(5) by auto
qed

theorem extract_file_short_body_witness:
  "extract_file (env0 rec_truncated) [ascii ''record'']
       = Some (ascii ''record.whl'', ''PK'' @ [CHR 0x03, CHR 0x04])
   \<and> length (''PK'' @ [CHR 0x03, CHR 0x04]) = length rec_truncated - 0x18
   \<and> length (''PK'' @ [CHR 0x03, CHR 0x04]) < (5 :: nat)"
  using extract_file_short_body [of "env0 rec_truncated" "[ascii ''record'']" rec_truncated
      "\<lparr>body_length = 5, body_offset = 0x18\<rparr>" "''PK'' @ [CHR 0x03, CHR 0x04]" "ascii ''record.whl''"]
  by (simp add: rec_truncated_def eval_defs)

text \<open>
  A record whose header announces 5 bytes and that is cut to \<open>0x18 + 5 - 1\<close> bytes:
  the 4 bytes that are left are written under the name of a wheel.
\<close>

theorem truncated_body_counterexample:
  "parse_header rec_truncated (f_read rec_truncated 0 READ_IN_SIZE)
     = Inr \<lparr>body_length = 5, body_offset = 0x18\<rparr>
   \<and> length rec_truncated = 0x18 + 5 - 1
   \<and> extract_file (env0 rec_truncated) [ascii ''record'']
       = Some (ascii ''record.whl'', ''PK'' @ [CHR 0x03, CHR 0x04])
   \<and> length (''PK'' @ [CHR 0x03, CHR 0x04]) = 5 - 1"
  by (simp add: rec_truncated_def eval_defs)

section \<open>The string operations and the loop over the lines\<close>

lemma find_snoc:
  "find P (xs @ [x]) = (case find P xs of Some y \<Rightarrow> Some y | None \<Rightarrow> if P x then Some x else None)"
  by (induction xs) auto

lemma last_line_Cons:
  "last_line p (l # ls) =
     (case last_line p ls of Some x \<Rightarrow> Some x | None \<Rightarrow> if startswith l p then Some l else None)"
  by (simp add: last_line_def find_snoc)

lemma last_line_Nil: "last_line p [] = None"
  by (simp add: last_line_def)

lemma startswith_Cons:
  "startswith l (a # p) \<longleftrightarrow> (\<exists>r. l = a # r \<and> startswith r p)"
  by (cases l) (auto simp: startswith_def)

lemma startswith_Nil: "startswith l []"
  by (simp add: startswith_def)

lemma split1_from_single:
  assumes "c \<notin> set pre"
  shows "split1_from [c] cur (pre @ c # rest) = [rev cur @ pre, rest]"
  using assms
proof (induction pre arbitrary: cur)
  case Nil
  show ?case by (subst split1_from.simps) (simp add: startswith_def)
next
  case (Cons a pre)
  then have "split1_from [c] cur ((a # pre) @ c # rest) = split1_from [c] (a # cur) (pre @ c # rest)"
    by (subst split1_from.simps) (auto simp: startswith_def)
  with Cons show ?case by simp
qed

lemma name_value:
  assumes "startswith line (ascii ''Name:'')"
  shows "index1 (split1 line (ascii '':'')) = Some (drop 5 line)"
proof -
  from assms obtain r where l: "line = ascii ''Name'' @ 58 # r"
    by (auto simp: ascii_def startswith_Cons)
  have "split1 line (ascii '':'') = [ascii ''Name'', r]"
    unfolding split1_def l using split1_from_single [of 58 "ascii ''Name''" "[]" r]
    by (simp add: ascii_def)
  then show ?thesis by (simp add: index1_def l ascii_def)
qed

lemma version_value:
  assumes "startswith line (ascii ''Version:'')"
  shows "index1 (split1 line (ascii '':'')) = Some (drop 8 line)"
proof -
  from assms obtain r where l: "line = ascii ''Version'' @ 58 # r"
    by (auto simp: ascii_def startswith_Cons)
  have "split1 line (ascii '':'') = [ascii ''Version'', r]"
    unfolding split1_def l using split1_from_single [of 58 "ascii ''Version''" "[]" r]
    by (simp add: ascii_def)
  then show ?thesis by (simp add: index1_def l ascii_def)
qed

lemma split_from_not_Nil: "split_from sep cur s \<noteq> []"
  by (induction sep cur s rule: split_from.induct) (subst split_from.simps, simp)

lemma split_not_Nil: "split s sep \<noteq> []"
  by (simp add: split_def split_from_not_Nil)

lemma prefixes_exclusive:
  "startswith line (ascii ''Name:'') \<Longrightarrow> \<not> startswith line (ascii ''Version:'')"
  "startswith line (ascii ''Name:'') \<Longrightarrow>
     \<not> startswith line (ascii ''Classifier: Programming Language :: Python ::'')"
  "startswith line (ascii ''Version:'') \<Longrightarrow>
     \<not> startswith line (ascii ''Classifier: Programming Language :: Python ::'')"
  by (auto simp: ascii_def startswith_Cons)


lemma metadata_step_cases:
  "startswith line (ascii ''Name:'') \<Longrightarrow>
     metadata_step line (n, v, p) = Some (Some (strip (drop 5 line)), v, p)"
  "startswith line (ascii ''Version:'') \<Longrightarrow>
     metadata_step line (n, v, p) = Some (n, Some (strip (drop 8 line)), p)"
  "startswith line (ascii ''Classifier: Programming Language :: Python ::'') \<Longrightarrow>
     metadata_step line (n, v, p) = Some (n, v, Some (strip (last (split line (ascii ''::'')))))"
  "\<not> startswith line (ascii ''Name:'') \<Longrightarrow> \<not> startswith line (ascii ''Version:'') \<Longrightarrow>
   \<not> startswith line (ascii ''Classifier: Programming Language :: Python ::'') \<Longrightarrow>
     metadata_step line (n, v, p) = Some (n, v, p)"
proof -
  show "startswith line (ascii ''Name:'') \<Longrightarrow>
     metadata_step line (n, v, p) = Some (Some (strip (drop 5 line)), v, p)"
    by (simp add: metadata_step_def name_value)
  show "startswith line (ascii ''Version:'') \<Longrightarrow>
     metadata_step line (n, v, p) = Some (n, Some (strip (drop 8 line)), p)"
    using prefixes_exclusive(1) [of line] by (auto simp: metadata_step_def version_value)
  show "startswith line (ascii ''Classifier: Programming Language :: Python ::'') \<Longrightarrow>
     metadata_step line (n, v, p) = Some (n, v, Some (strip (last (split line (ascii ''::'')))))"
    using prefixes_exclusive(2,3) [of line]
    by (auto simp: metadata_step_def index_last_def split_not_Nil)
  show "\<not> startswith line (ascii ''Name:'') \<Longrightarrow> \<not> startswith line (ascii ''Version:'') \<Longrightarrow>
   \<not> startswith line (ascii ''Classifier: Programming Language :: Python ::'') \<Longrightarrow>
     metadata_step line (n, v, p) = Some (n, v, p)"
    by (simp add: metadata_step_def)
qed

lemma metadata_loop_last:
  "metadata_loop ls (n, v, p) = Some
     (case last_line (ascii ''Name:'') ls of
        None \<Rightarrow> n | Some l \<Rightarrow> Some (strip (drop 5 l)),
      case last_line (ascii ''Version:'') ls of
        None \<Rightarrow> v | Some l \<Rightarrow> Some (strip (drop 8 l)),
      case last_line (ascii ''Classifier: Programming Language :: Python ::'') ls of
        None \<Rightarrow> p | Some l \<Rightarrow> Some (strip (last (split l (ascii ''::'')))))"
proof (induction ls arbitrary: n v p)
  case Nil
  show ?case by (simp add: last_line_Nil)
next
  case (Cons line ls)
  consider (name) "startswith line (ascii ''Name:'')"
    | (version) "startswith line (ascii ''Version:'')"
    | (classifier) "startswith line (ascii ''Classifier: Programming Language :: Python ::'')"
    | (other) "\<not> startswith line (ascii ''Name:'')" "\<not> startswith line (ascii ''Version:'')"
        "\<not> startswith line (ascii ''Classifier: Programming Language :: Python ::'')"
    by blast
  then show ?case
  proof cases
    case name
    with prefixes_exclusive(1,2) [of line] show ?thesis
      by (simp add: metadata_step_cases(1) Cons.IH last_line_Cons split: option.splits)
  next
    case version
    with prefixes_exclusive(1,3) [of line] show ?thesis
      by (auto simp: metadata_step_cases(2) Cons.IH last_line_Cons split: option.splits)
  next
    case classifier
    with prefixes_exclusive(2,3) [of line] show ?thesis
      by (auto simp: metadata_step_cases(3) Cons.IH last_line_Cons split: option.splits)
  next
    case other
    then show ?thesis
      by (simp add: metadata_step_cases(4) Cons.IH last_line_Cons split: option.splits)
  qed
qed

section \<open>Classification of a body\<close>

lemma metadata_not_magic:
  assumes "startswith body ''Metadata-Version''"
  shows "\<not> startswith body (''PK'' @ [CHR 0x03, CHR 0x04])"
    and "\<not> startswith body [CHR 0x1F, CHR 0x8B, CHR 0x08, CHR 0x00]"
    and "\<not> startswith body [CHR 0x1F, CHR 0x8B, CHR 0x08, CHR 0x08]"
  using assms by (auto simp: startswith_Cons)

text \<open>
  C3. The checks are made in this order and give one name: a body that starts with
  the bytes \<open>50 4B 03 04\<close> is named base + \<open>.whl\<close>, one that starts with
  \<open>1F 8B 08 00\<close> base + \<open>.gz\<close>, one that starts with \<open>1F 8B 08 08\<close> base + \<open>.tgz\<close>;
  for one that starts with the text \<open>Metadata-Version\<close> the metadata is parsed and
  its name, if it gives one, is the result; in every remaining case, also when the
  body starts with none of the four, the name is base + \<open>.dat\<close>. A body with one of
  the three magic numbers never reaches the text check.
\<close>

theorem detect_file_type_priority:
  "(startswith body [CHR 0x50, CHR 0x4B, CHR 0x03, CHR 0x04] \<longrightarrow>
      detect_file_type body base = base @ ascii ''.whl'')
   \<and> (startswith body [CHR 0x1F, CHR 0x8B, CHR 0x08, CHR 0x00] \<longrightarrow>
      detect_file_type body base = base @ ascii ''.gz'')
   \<and> (startswith body [CHR 0x1F, CHR 0x8B, CHR 0x08, CHR 0x08] \<longrightarrow>
      detect_file_type body base = base @ ascii ''.tgz'')
   \<and> (startswith body ''Metadata-Version'' \<longrightarrow>
      detect_file_type body base =
        (case parse_metadata body of
           Some final_name \<Rightarrow> final_name
         | None \<Rightarrow> base @ ascii ''.dat''))
   \<and> (\<not> startswith body [CHR 0x50, CHR 0x4B, CHR 0x03, CHR 0x04]
        \<and> \<not> startswith body [CHR 0x1F, CHR 0x8B, CHR 0x08, CHR 0x00]
        \<and> \<not> startswith body [CHR 0x1F, CHR 0x8B, CHR 0x08, CHR 0x08]
        \<and> \<not> startswith body ''Metadata-Version'' \<longrightarrow>
      detect_file_type body base = base @ ascii ''.dat'')"
proof -
  have whl: "startswith body [CHR 0x50, CHR 0x4B, CHR 0x03, CHR 0x04] \<Longrightarrow>
      detect_file_type body base = base @ ascii ''.whl''"
    by (simp add: detect_file_type_def)
  have gz: "startswith body [CHR 0x1F, CHR 0x8B, CHR 0x08, CHR 0x00] \<Longrightarrow>
      detect_file_type body base = base @ ascii ''.gz''"
    by (auto simp: detect_file_type_def startswith_Cons)
  have tgz: "startswith body [CHR 0x1F, CHR 0x8B, CHR 0x08, CHR 0x08] \<Longrightarrow>
      detect_file_type body base = base @ ascii ''.tgz''"
    by (auto simp: detect_file_type_def startswith_Cons)
  have md: "startswith body ''Metadata-Version'' \<Longrightarrow>
      detect_file_type body base =
        (case parse_metadata body of
           Some final_name \<Rightarrow> final_name
         | None \<Rightarrow> base @ ascii ''.dat'')"
    using metadata_not_magic [of body] by (simp add: detect_file_type_def)
  have other: "\<not> startswith body [CHR 0x50, CHR 0x4B, CHR 0x03, CHR 0x04] \<Longrightarrow>
        \<not> startswith body [CHR 0x1F, CHR 0x8B, CHR 0x08, CHR 0x00] \<Longrightarrow>
        \<not> startswith body [CHR 0x1F, CHR 0x8B, CHR 0x08, CHR 0x08] \<Longrightarrow>
        \<not> startswith body ''Metadata-Version'' \<Longrightarrow>
      detect_file_type body base = base @ ascii ''.dat''"
    by (simp add: detect_file_type_def)
  show ?thesis using whl gz tgz md other by blast
qed

theorem detect_file_type_priority_witness:
  "detect_file_type body_wheel (ascii ''base'') = ascii ''base.whl''
   \<and> detect_file_type body_gz (ascii ''base'') = ascii ''base.gz''
   \<and> detect_file_type body_tgz (ascii ''base'') = ascii ''base.tgz''
   \<and> detect_file_type md_tagged (ascii ''base'') = ascii ''foo-1.0-py3.9.metadata.txt''
   \<and> detect_file_type body_other (ascii ''base'') = ascii ''base.dat''"
  using detect_file_type_priority [of body_wheel "ascii ''base''"]
    detect_file_type_priority [of body_gz "ascii ''base''"]
    detect_file_type_priority [of body_tgz "ascii ''base''"]
    detect_file_type_priority [of md_tagged "ascii ''base''"]
    detect_file_type_priority [of body_other "ascii ''base''"]
  by (simp add: body_wheel_def body_gz_def body_tgz_def md_tagged_def body_other_def eval_defs)

section \<open>Names from metadata\<close>

text \<open>
  C4 (as the code has it). For a body that starts with \<open>Metadata-Version\<close>: the name
  is the trimmed text after \<open>Name:\<close> in the last line starting with \<open>Name:\<close>, the
  version the trimmed text after \<open>Version:\<close> in the last line starting with
  \<open>Version:\<close>, and the tag the trimmed last field, split at \<open>::\<close>, of the last line
  starting with \<open>Classifier: Programming Language :: Python ::\<close>. If name and version
  are both found and neither is empty, the result is
  \<open>{name}-{version}-py{tag}.metadata.txt\<close> when a non-empty tag was found and
  \<open>{name}-{version}-py3-none-any.metadata.txt\<close> otherwise. If name or version is
  missing or empty, or the body is not valid UTF-8, the result is base + \<open>.dat\<close>.
\<close>

theorem detect_file_type_metadata:
  assumes "startswith body ''Metadata-Version''"
  shows "detect_file_type body base =
    (case decode_utf8 body of
       None \<Rightarrow> base @ ascii ''.dat''
     | Some text \<Rightarrow>
        (case (map_option (\<lambda>l. strip (drop 5 l))
                 (last_line (ascii ''Name:'') (splitlines text)),
               map_option (\<lambda>l. strip (drop 8 l))
                 (last_line (ascii ''Version:'') (splitlines text)),
               map_option (\<lambda>l. strip (last (split l (ascii ''::''))))
                 (last_line (ascii ''Classifier: Programming Language :: Python ::'')
                    (splitlines text))) of
           (Some name, Some version, tag) \<Rightarrow>
             if name = [] \<or> version = [] then base @ ascii ''.dat''
             else
               (case tag of
                  None \<Rightarrow> name @ ascii ''-'' @ version @ ascii ''-py3-none-any.metadata.txt''
                | Some t \<Rightarrow>
                    if t = [] then
                      name @ ascii ''-'' @ version @ ascii ''-py3-none-any.metadata.txt''
                    else name @ ascii ''-'' @ version @ ascii ''-py'' @ t @ ascii ''.metadata.txt'')
         | _ \<Rightarrow> base @ ascii ''.dat''))"
proof (cases "decode_utf8 body")
  case None
  then show ?thesis
    using metadata_not_magic [OF assms] assms
    by (simp add: detect_file_type_def parse_metadata_def)
next
  case (Some decoded)
  then show ?thesis
    using metadata_not_magic [OF assms] assms
    by (auto simp: detect_file_type_def parse_metadata_def metadata_loop_last truthy_def fmt_def
        split: option.splits)
qed

theorem detect_file_type_metadata_witness:
  "detect_file_type md_tagged (ascii ''base'') = ascii ''foo-1.0-py3.9.metadata.txt''
   \<and> detect_file_type md_untagged (ascii ''base'') = ascii ''foo-1.0-py3-none-any.metadata.txt''
   \<and> detect_file_type md_not_utf8 (ascii ''base'') = ascii ''base.dat''"
  using detect_file_type_metadata [of md_tagged "ascii ''base''"]
    detect_file_type_metadata [of md_untagged "ascii ''base''"]
    detect_file_type_metadata [of md_not_utf8 "ascii ''base''"]
  by (simp add: md_tagged_def md_untagged_def md_not_utf8_def eval_defs last_line_def)

text \<open>
  A body with a \<open>Name:\<close> line and a \<open>Version:\<close> line, the first without a value: no
  name is synthesized.
\<close>

theorem empty_name_counterexample:
  "startswith md_empty_name ''Metadata-Version''
   \<and> map_option splitlines (decode_utf8 md_empty_name)
       = Some [ascii ''Metadata-Version: 2.1'', ascii ''Name:'', ascii ''Version: 1.0'']
   \<and> detect_file_type md_empty_name (ascii ''base'') = ascii ''base.dat''
   \<and> detect_file_type md_empty_name (ascii ''base'') \<noteq> ascii ''-1.0-py3-none-any.metadata.txt''"
  by (simp add: md_empty_name_def eval_defs)

section \<open>The signature check\<close>

lemma is_cachecontrol_v4_iff:
  "is_cachecontrol_v4 e p \<longleftrightarrow> (\<exists>bs. files e p = Some bs \<and> take 5 bs = ''cc=4,'')"
  by (simp add: is_cachecontrol_v4_def f_read_def split: option.splits)

text \<open>
  C6. For a file that can be read, \<open>is_cachecontrol_v4\<close> is true exactly when its
  first 5 bytes are \<open>cc=4,\<close>; for a file that cannot be opened it is false; and a
  file whose first 5 bytes differ is not put on the file list by \<open>load_files\<close>, so
  that \<open>extract_all\<close>, which works through the file list, never calls
  \<open>extract_file\<close> on it.
\<close>

theorem is_cachecontrol_v4_gate:
  "(files e p = Some bs \<longrightarrow> (is_cachecontrol_v4 e p \<longleftrightarrow> take 5 bs = ''cc=4,''))
   \<and> (files e p = None \<longrightarrow> \<not> is_cachecontrol_v4 e p)
   \<and> (files e p = Some bs \<and> take 5 bs \<noteq> ''cc=4,'' \<longrightarrow>
        p \<notin> set (load_files e found)
        \<and> (\<forall>k r. (p, r) \<notin> set (extract_all e k (load_files e found))))"
proof -
  have a: "files e p = Some bs \<Longrightarrow> (is_cachecontrol_v4 e p \<longleftrightarrow> take 5 bs = ''cc=4,'')"
    by (simp add: is_cachecontrol_v4_iff)
  have b: "files e p = None \<Longrightarrow> \<not> is_cachecontrol_v4 e p"
    by (simp add: is_cachecontrol_v4_iff)
  have c: "p \<notin> set (load_files e found)"
    if "files e p = Some bs" and "take 5 bs \<noteq> ''cc=4,''"
    using that by (simp add: load_files_def is_cachecontrol_v4_iff)
  have d: "(p, r) \<notin> set (extract_all e k (load_files e found))"
    if "p \<notin> set (load_files e found)" for k r
    using that by (auto simp: extract_all_def dest: in_set_takeD)
  show ?thesis using a b c d by blast
qed

theorem is_cachecontrol_v4_gate_witness:
  "is_cachecontrol_v4 env_dir [ascii ''a'', ascii ''0f3c'']
   \<and> \<not> is_cachecontrol_v4 env_dir [ascii ''b'', ascii ''0f3c'']
   \<and> \<not> is_cachecontrol_v4 env_dir [ascii ''c'', ascii ''0f3c'']
   \<and> [ascii ''b'', ascii ''0f3c''] \<notin> set (load_files env_dir found_paths)
   \<and> load_files env_dir found_paths = [ [ascii ''a'', ascii ''0f3c''] ]"
  using is_cachecontrol_v4_gate [of env_dir "[ascii ''a'', ascii ''0f3c'']" rec_28 "[]"]
    is_cachecontrol_v4_gate [of env_dir "[ascii ''b'', ascii ''0f3c'']" rec_semicolon
      found_paths]
    is_cachecontrol_v4_gate [of env_dir "[ascii ''c'', ascii ''0f3c'']" rec_28 "[]"]
  by (simp add: env_dir_def found_paths_def rec_28_def rec_semicolon_def ascii_def
      load_files_def is_cachecontrol_v4_def f_read_def)

text \<open>
  \<open>extract_file\<close> tests the signature once more, without the comma: whatever it
  extracts starts with \<open>cc=4\<close>.
\<close>

lemma extract_file_own_check:
  assumes "extract_file e file = Some r"
  shows "\<exists>bs. files e file = Some bs \<and> take 4 bs = ''cc=4''"
proof -
  from assms obtain bs where bs: "files e file = Some bs"
    and sw: "startswith (f_read bs 0 READ_IN_SIZE) ''cc=4''"
    by (auto simp: extract_file_def Let_def split: option.splits if_splits)
  have "take 4 (take 32 bs) = take 4 bs" by simp
  moreover from sw have "take (length ''cc=4'') (take 32 bs) = ''cc=4''"
    unfolding startswith_def f_read_def READ_IN_SIZE_def by simp
  moreover have "length ''cc=4'' = 4" by simp
  ultimately have "take 4 bs = ''cc=4''" by (simp only:)
  with bs show ?thesis by blast
qed

section \<open>The default name of the output\<close>

text \<open>
  The default name is made from \<open>file.name\<close>, the last component of the path, which
  holds no separator; the directories of the record do not enter it.
\<close>

lemma extract_file_name_from_basename:
  assumes "files e (d1 @ [n]) = files e (d2 @ [n])"
  shows "extract_file e (d1 @ [n]) = extract_file e (d2 @ [n])"
proof -
  have pn: "path_name (d1 @ [n]) = path_name (d2 @ [n])"
    by (simp add: path_name_def)
  show ?thesis unfolding extract_file_def assms pn by (rule refl)
qed

text \<open>
  C9 (the code at two records). Two records \<open>a/0f3c\<close> and \<open>b/0f3c\<close> with the same
  content get the same default name \<open>0f3c\<close> and so the same output name, where the
  property asks for names that differ with the relative path.
\<close>

theorem same_basename_same_name:
  "extract_file (env0 rec_28) [ascii ''a'', ascii ''0f3c'']
     = Some (ascii ''0f3c.whl'', ''PK'' @ [CHR 0x03, CHR 0x04])
   \<and> extract_file (env0 rec_28) [ascii ''b'', ascii ''0f3c'']
     = Some (ascii ''0f3c.whl'', ''PK'' @ [CHR 0x03, CHR 0x04])"
  by (simp add: rec_28_def eval_defs)

section \<open>The name of a wheel from its archive\<close>

lemma split_from_single:
  assumes "c \<notin> set pre"
  shows "split_from [c] cur (pre @ c # rest) = (rev cur @ pre) # split_from [c] [] rest"
  using assms
proof (induction pre arbitrary: cur)
  case Nil
  show ?case by (subst split_from.simps) (simp add: startswith_def)
next
  case (Cons a pre)
  then have "split_from [c] cur ((a # pre) @ c # rest) = split_from [c] (a # cur) (pre @ c # rest)"
    by (subst split_from.simps) (auto simp: startswith_def)
  with Cons show ?case by simp
qed

lemma split_from_no_sep:
  assumes "c \<notin> set s"
  shows "split_from [c] cur s = [rev cur @ s]"
  using assms
proof (induction s arbitrary: cur)
  case Nil
  show ?case by (subst split_from.simps) simp
next
  case (Cons a s)
  then have "split_from [c] cur (a # s) = split_from [c] (a # cur) s"
    by (subst split_from.simps) (auto simp: startswith_def)
  with Cons show ?case by simp
qed

lemma takeWhile_until:
  "c \<notin> set pre \<Longrightarrow> takeWhile (\<lambda>x. x \<noteq> c) (pre @ c # rest) = pre"
  by (induction pre) auto

lemma hd_split_single: "hd (split n [c]) = takeWhile (\<lambda>x. x \<noteq> c) n"
proof (cases "c \<in> set n")
  case True
  then obtain pre rest where n: "n = pre @ c # rest" and pre: "c \<notin> set pre"
    by (auto dest: split_list_first)
  have "takeWhile (\<lambda>x. x \<noteq> c) n = pre"
    using pre by (simp add: n takeWhile_until)
  then show ?thesis
    using split_from_single [OF pre, of "[]" rest] by (simp add: split_def n)
next
  case False
  then have tw: "takeWhile (\<lambda>x. x \<noteq> c) n = n"
    by (auto simp: takeWhile_eq_all_conv)
  show ?thesis
    using split_from_no_sep [OF False, of "[]"] by (simp add: split_def tw)
qed

lemma first_segment_split: "hd (split n (ascii ''/'')) = first_segment n"
  using hd_split_single [of n "0x2F"] by (simp add: first_segment_def ascii_def)

lemma dist_info_folders_eq:
  "dist_info_folders a =
     first_segment ` {n \<in> set (namelist a). endswith n (ascii ''.dist-info/WHEEL'')}"
  by (simp add: dist_info_folders_def first_segment_split)

lemma endswith_append: "endswith (xs @ s) s"
  by (simp add: endswith_def)

lemma first_segment_top:
  assumes "0x2F \<notin> set dir"
  shows "first_segment (dir @ ascii ''/WHEEL'') = dir"
  using assms by (simp add: first_segment_def ascii_def takeWhile_until)

lemma archive_open_namelist:
  assumes "archive_open a n = Some content"
  shows "n \<in> set (namelist a)"
proof -
  from assms have "(n, content) \<in> set (rev a)"
    unfolding archive_open_def by (rule map_of_SomeD)
  then show ?thesis by (force simp: namelist_def)
qed

lemma archive_open_None: "archive_open a n = None \<longleftrightarrow> n \<notin> set (namelist a)"
  by (simp add: archive_open_def namelist_def map_of_eq_None_iff)

lemma replace_only_suffix:
  assumes "old \<noteq> []"
    and "\<forall>i<length stem. \<not> startswith (drop i (stem @ old)) old"
  shows "replace (stem @ old) old new = stem @ new"
  using assms(2)
proof (induction stem)
  case Nil
  have "replace [] old new = []" by (subst replace.simps) simp
  then show ?case
    using assms(1) by (subst replace.simps) (simp add: startswith_def)
next
  case (Cons x stem)
  from Cons.prems have "\<not> startswith ((x # stem) @ old) old" by force
  then have "replace ((x # stem) @ old) old new = x # replace (stem @ old) old new"
    using assms(1) by (subst replace.simps) simp
  moreover have "\<forall>i<length stem. \<not> startswith (drop i (stem @ old)) old"
  proof (intro allI impI)
    fix i assume "i < length stem"
    then have "\<not> startswith (drop (Suc i) ((x # stem) @ old)) old"
      using Cons.prems by (metis Suc_less_eq length_Cons)
    then show "\<not> startswith (drop i (stem @ old)) old" by simp
  qed
  ultimately show ?case using Cons.IH by simp
qed

lemma wheel_loop_skip:
  assumes "\<forall>b\<in>set before. not_tag_line b"
  shows "wheel_loop v (before @ rest) = wheel_loop v rest"
  using assms
  by (induction before) (auto simp: not_tag_line_def Let_def split: option.splits)

lemma wheel_loop_tag:
  assumes "decode_utf8 lb = Some t" and "startswith (strip t) (ascii ''Tag:'')"
  shows "wheel_loop v (lb # rest)
     = Inr (Some (v @ ascii ''-'' @ strip (drop 4 (strip t)) @ ascii ''.whl''))"
  using assms by (simp add: Let_def eval_nat_numeral)

lemma wheel_loop_no_tag:
  assumes "\<forall>b\<in>set ls. not_tag_line b"
  shows "wheel_loop v ls = Inr None"
  using wheel_loop_skip [OF assms, of v "[]"] by simp

text \<open>
  C5 (as the code has it). Let the archive have a member \<open>{dir}/WHEEL\<close> whose
  directory \<open>dir\<close> is at top level and ends in \<open>.dist-info\<close>, and holds \<open>.dist-info\<close>
  nowhere else. Then \<open>dir\<close> is one of the folders the function chooses from; when
  it is the one chosen, the WHEEL file is read line by line, each line decoded as
  UTF-8 and trimmed, and at the first line whose trimmed text starts with \<open>Tag:\<close>
  (the lines before it decode and do not) the result is
  \<open>{distribution_name}-{tag}.whl\<close>, with \<open>dir\<close> without its suffix as distribution
  name and the trimmed rest of the trimmed line as tag; it is the only result when
  \<open>dir\<close> is the only folder. An archive none of whose member names ends in
  \<open>.dist-info/WHEEL\<close> makes the function raise FileNotFoundError.
\<close>

theorem reconstruct_top_level:
  assumes "dir = stem @ ascii ''.dist-info''" and "0x2F \<notin> set dir"
    and "\<forall>i<length stem. \<not> startswith (drop i dir) (ascii ''.dist-info'')"
    and "archive_open a (dir @ ascii ''/WHEEL'') = Some content"
    and "readlines content = before @ lb # after"
    and "\<forall>b\<in>set before. not_tag_line b"
    and "decode_utf8 lb = Some t" and "startswith (strip t) (ascii ''Tag:'')"
    and "final = stem @ ascii ''-'' @ strip (drop 4 (strip t)) @ ascii ''.whl''"
  shows "dir \<in> dist_info_folders a
     \<and> reconstruct_from a dir = Inr (Some final)
     \<and> Inr (Some final) \<in> reconstruct_whl_filename a
     \<and> (dist_info_folders a = {dir} \<longrightarrow> reconstruct_whl_filename a = {Inr (Some final)})
     \<and> ((\<forall>n\<in>set (namelist a'). \<not> endswith n (ascii ''.dist-info/WHEEL'')) \<longrightarrow>
          reconstruct_whl_filename a' = {Inl FileNotFoundError})"
proof -
  have name: "dir @ ascii ''/WHEEL'' \<in> set (namelist a)"
    using assms(4) by (rule archive_open_namelist)
  have "dir @ ascii ''/WHEEL'' = stem @ ascii ''.dist-info/WHEEL''"
    by (simp add: assms(1) ascii_def)
  then have "endswith (dir @ ascii ''/WHEEL'') (ascii ''.dist-info/WHEEL'')"
    by (simp add: endswith_append)
  with name have "first_segment (dir @ ascii ''/WHEEL'') \<in> dist_info_folders a"
    unfolding dist_info_folders_eq by blast
  then have folder: "dir \<in> dist_info_folders a"
    by (simp add: first_segment_top [OF assms(2)])
  have "replace dir (ascii ''.dist-info'') [] = stem @ []"
    unfolding assms(1)
    using assms(3) by (intro replace_only_suffix) (simp_all add: assms(1) ascii_def)
  moreover have "wheel_loop stem (readlines content) = Inr (Some final)"
  proof -
    have "wheel_loop stem (readlines content) = wheel_loop stem (lb # after)"
      unfolding assms(5) by (rule wheel_loop_skip [OF assms(6)])
    also have "\<dots> = Inr (Some final)"
      unfolding assms(9) by (rule wheel_loop_tag [OF assms(7,8)])
    finally show ?thesis .
  qed
  ultimately have result: "reconstruct_from a dir = Inr (Some final)"
    by (simp add: reconstruct_from_def assms(4))
  have mem: "Inr (Some final) \<in> reconstruct_whl_filename a"
    using folder result by (force simp: reconstruct_whl_filename_def)
  have single: "dist_info_folders a = {dir} \<Longrightarrow> reconstruct_whl_filename a = {Inr (Some final)}"
    using result by (simp add: reconstruct_whl_filename_def)
  have none: "\<forall>n\<in>set (namelist a'). \<not> endswith n (ascii ''.dist-info/WHEEL'') \<Longrightarrow>
      reconstruct_whl_filename a' = {Inl FileNotFoundError}"
    by (auto simp: reconstruct_whl_filename_def dist_info_folders_eq)
  show ?thesis using folder result mem single none by blast
qed

theorem reconstruct_top_level_witness:
  "reconstruct_whl_filename archive_pkg = {Inr (Some (ascii ''pkg-1.0-py3-none-any.whl''))}
   \<and> reconstruct_whl_filename archive_no_wheel = {Inl FileNotFoundError}"
  using reconstruct_top_level [of "ascii ''pkg-1.0.dist-info''" "ascii ''pkg-1.0''" archive_pkg
      "''Wheel-Version: 1.0'' @ [CHR 0x0A] @ ''Tag: py3-none-any'' @ [CHR 0x0A]"
      "[''Wheel-Version: 1.0'' @ [CHR 0x0A]]" "''Tag: py3-none-any'' @ [CHR 0x0A]" "[]"
      "ascii ''Tag: py3-none-any'' @ [0x0A]" "ascii ''pkg-1.0-py3-none-any.whl''"
      archive_no_wheel]
  by (simp add: archive_pkg_def archive_no_wheel_def eval_archive eval_defs)

text \<open>
  A WHEEL file whose first line is an indented \<open>Tag:\<close> line: the first line that
  starts with \<open>Tag:\<close> is the second one, and the name is built from the first.
  And a top-level folder \<open>a.dist-info.dist-info\<close>: without its suffix it is
  \<open>a.dist-info\<close>, and the name is built from \<open>a\<close>.
\<close>

theorem reconstruct_name_counterexample:
  "namelist archive_indented = [ascii ''pkg-1.0.dist-info/WHEEL'']
   \<and> archive_open archive_indented (ascii ''pkg-1.0.dist-info/WHEEL'')
       = Some ('' Tag: a'' @ [CHR 0x0A] @ ''Tag: b'' @ [CHR 0x0A])
   \<and> readlines ('' Tag: a'' @ [CHR 0x0A] @ ''Tag: b'' @ [CHR 0x0A])
     = ['' Tag: a'' @ [CHR 0x0A], ''Tag: b'' @ [CHR 0x0A]]
   \<and> decode_utf8 ('' Tag: a'' @ [CHR 0x0A]) = Some (ascii '' Tag: a'' @ [0x0A])
   \<and> \<not> startswith (ascii '' Tag: a'' @ [0x0A]) (ascii ''Tag:'')
   \<and> decode_utf8 (''Tag: b'' @ [CHR 0x0A]) = Some (ascii ''Tag: b'' @ [0x0A])
   \<and> startswith (ascii ''Tag: b'' @ [0x0A]) (ascii ''Tag:'')
   \<and> reconstruct_whl_filename archive_indented = {Inr (Some (ascii ''pkg-1.0-a.whl''))}
   \<and> Inr (Some (ascii ''pkg-1.0-b.whl'')) \<notin> reconstruct_whl_filename archive_indented
   \<and> namelist archive_twice = [ascii ''a.dist-info.dist-info/WHEEL'']
   \<and> ascii ''a.dist-info.dist-info'' = ascii ''a.dist-info'' @ ascii ''.dist-info''
   \<and> reconstruct_whl_filename archive_twice = {Inr (Some (ascii ''a-py3-none-any.whl''))}
   \<and> Inr (Some (ascii ''a.dist-info-py3-none-any.whl''))
         \<notin> reconstruct_whl_filename archive_twice"
  by (simp add: archive_indented_def archive_twice_def eval_archive eval_defs)

text \<open>
  C8 (as the code has it). When the WHEEL file of the chosen folder decodes as UTF-8
  and none of its trimmed lines starts with \<open>Tag:\<close>, the loop ends and the function
  returns \<open>None\<close>: no exception is raised, and with a single folder \<open>None\<close> is the
  only result.
\<close>

theorem reconstruct_without_tag:
  assumes "dir \<in> dist_info_folders a"
    and "archive_open a (dir @ ascii ''/WHEEL'') = Some content"
    and "\<forall>b\<in>set (readlines content). not_tag_line b"
  shows "reconstruct_from a dir = Inr None
     \<and> Inr None \<in> reconstruct_whl_filename a
     \<and> (dist_info_folders a = {dir} \<longrightarrow> reconstruct_whl_filename a = {Inr None})"
proof -
  have result: "reconstruct_from a dir = Inr None"
    by (simp add: reconstruct_from_def assms(2) wheel_loop_no_tag [OF assms(3)])
  have mem: "Inr None \<in> reconstruct_whl_filename a"
    using assms(1) result by (force simp: reconstruct_whl_filename_def)
  have single: "dist_info_folders a = {dir} \<Longrightarrow> reconstruct_whl_filename a = {Inr None}"
    using result by (simp add: reconstruct_whl_filename_def)
  show ?thesis using result mem single by blast
qed

theorem reconstruct_without_tag_witness:
  "reconstruct_from archive_no_tag (ascii ''pkg-1.0.dist-info'') = Inr None
   \<and> reconstruct_whl_filename archive_no_tag = {Inr None}"
  using reconstruct_without_tag [of "ascii ''pkg-1.0.dist-info''" archive_no_tag
      "''Wheel-Version: 1.0'' @ [CHR 0x0A]"]
  by (simp add: archive_no_tag_def eval_archive eval_defs)

text \<open>An archive with a WHEEL file without a tag: the result is \<open>None\<close>.\<close>

theorem missing_tag_counterexample:
  "namelist archive_no_tag = [ascii ''pkg-1.0.dist-info/WHEEL'']
   \<and> archive_open archive_no_tag (ascii ''pkg-1.0.dist-info/WHEEL'')
       = Some (''Wheel-Version: 1.0'' @ [CHR 0x0A])
   \<and> reconstruct_whl_filename archive_no_tag = {Inr None}"
  by (simp add: archive_no_tag_def eval_archive eval_defs)

text \<open>
  C10 (as the code has it). Let every member whose name ends in \<open>.dist-info/WHEEL\<close>
  lie below another directory, let there be such a member, and let the archive
  have no member named \<open>{first segment}/WHEEL\<close> for any of them. Then the folders
  chosen from are the first segments of these members, opening
  \<open>{first segment}/WHEEL\<close> raises KeyError for each, and KeyError is the only result:
  neither a name nor the FileNotFoundError of an archive without WHEEL metadata.
\<close>

theorem reconstruct_nested:
  assumes "\<exists>n\<in>set (namelist a). endswith n (ascii ''.dist-info/WHEEL'')"
    and "\<forall>n\<in>set (namelist a). endswith n (ascii ''.dist-info/WHEEL'') \<longrightarrow> nested n"
    and "\<forall>n\<in>set (namelist a). endswith n (ascii ''.dist-info/WHEEL'') \<longrightarrow>
           first_segment n @ ascii ''/WHEEL'' \<notin> set (namelist a)"
  shows "dist_info_folders a =
       set (map first_segment
              (filter (\<lambda>n. endswith n (ascii ''.dist-info/WHEEL'')) (namelist a)))
     \<and> (\<forall>d\<in>dist_info_folders a. reconstruct_from a d = Inl KeyError)
     \<and> reconstruct_whl_filename a = {Inl KeyError}"
proof -
  have each: "reconstruct_from a d = Inl KeyError" if "d \<in> dist_info_folders a" for d
  proof -
    from that obtain n where "n \<in> set (namelist a)"
      and "endswith n (ascii ''.dist-info/WHEEL'')" and "d = first_segment n"
      unfolding dist_info_folders_eq by blast
    with assms(3) have "d @ ascii ''/WHEEL'' \<notin> set (namelist a)" by blast
    then have "archive_open a (d @ ascii ''/WHEEL'') = None"
      by (simp add: archive_open_None)
    then show ?thesis by (simp add: reconstruct_from_def)
  qed
  have nonempty: "dist_info_folders a \<noteq> {}"
    using assms(1) unfolding dist_info_folders_eq by blast
  then have "reconstruct_whl_filename a = {Inl KeyError}"
    using each by (auto simp: reconstruct_whl_filename_def)
  moreover have "dist_info_folders a =
       set (map first_segment
              (filter (\<lambda>n. endswith n (ascii ''.dist-info/WHEEL'')) (namelist a)))"
    by (simp add: dist_info_folders_def first_segment_split)
  ultimately show ?thesis using each by blast
qed

theorem reconstruct_nested_witness:
  "dist_info_folders archive_nested = {ascii ''sub''}
   \<and> reconstruct_whl_filename archive_nested = {Inl KeyError}"
  using reconstruct_nested [of archive_nested]
  by (simp add: archive_nested_def eval_archive eval_defs)

text \<open>
  A nested WHEEL member next to a member \<open>sub/WHEEL\<close>: the latter is opened and a
  name is returned.
\<close>

theorem nested_with_wheel_counterexample:
  "namelist archive_nested_wheel = [ascii ''sub/pkg-1.0.dist-info/WHEEL'', ascii ''sub/WHEEL'']
   \<and> endswith (ascii ''sub/pkg-1.0.dist-info/WHEEL'') (ascii ''.dist-info/WHEEL'')
   \<and> nested (ascii ''sub/pkg-1.0.dist-info/WHEEL'')
   \<and> \<not> endswith (ascii ''sub/WHEEL'') (ascii ''.dist-info/WHEEL'')
   \<and> reconstruct_whl_filename archive_nested_wheel = {Inr (Some (ascii ''sub-t.whl''))}"
  by (simp add: archive_nested_wheel_def eval_archive eval_defs)

end
